theory Spec2Isabelle
  imports Main "HOL-Library.AList"
begin

section \<open>Porthole (server.js): a shallow embedding\<close>

text \<open>
  The gateway is a single Node.js file. Its pure parts (string handling, routing, the
  bookkeeping of the active-tunnel map) are embedded as HOL functions. Everything the
  code obtains from outside (socket events, the output or failure of \<^verbatim>\<open>execSync\<close>,
  a synchronous throw of \<^verbatim>\<open>spawn\<close>, the answers of the agent's control API on port
  4040) is a field of the record \<open>env\<close>, so every theorem quantifies over all outcomes
  of the outside world. JavaScript numbers are modelled as \<open>int\<close>; the two agree on
  integers below \<open>2^53\<close>, and a template literal renders such an integer below \<open>10^21\<close>
  in plain decimal. Strings are byte strings.
\<close>

subsection \<open>JavaScript string primitives\<close>

definition startsWith :: "string \<Rightarrow> string \<Rightarrow> bool" where
  "startsWith s p = (take (length p) s = p)"

fun str_includes :: "string \<Rightarrow> string \<Rightarrow> bool" where
  "str_includes [] p = (p = [])"
| "str_includes (c # cs) p = (startsWith (c # cs) p \<or> str_includes cs p)"

text \<open>\<^verbatim>\<open>s.replace(pat, rep)\<close> with a string pattern: the first occurrence only.\<close>

fun replace :: "string \<Rightarrow> string \<Rightarrow> string \<Rightarrow> string" where
  "replace [] pat rep = (if pat = [] then rep else [])"
| "replace (c # cs) pat rep =
     (if startsWith (c # cs) pat then rep @ drop (length pat) (c # cs)
      else c # replace cs pat rep)"

definition is_space :: "char \<Rightarrow> bool" where
  "is_space c = (c \<in> set [CHR 0x09, CHR 0x0A, CHR 0x0B, CHR 0x0C, CHR 0x0D, CHR 0x20])"

definition trim :: "string \<Rightarrow> string" where
  "trim s = rev (dropWhile is_space (rev (dropWhile is_space s)))"

text \<open>\<^verbatim>\<open>s.split(sep)\<close> for a one-character separator; the result is never empty.\<close>

fun split_char :: "char \<Rightarrow> string \<Rightarrow> string list" where
  "split_char sep [] = [[]]"
| "split_char sep (c # cs) =
     (if c = sep then [] # split_char sep cs
      else (case split_char sep cs of
              [] \<Rightarrow> [[c]]
            | w # ws \<Rightarrow> (c # w) # ws))"

text \<open>\<^verbatim>\<open>s.split(/\s+/)\<close>: the separators are the maximal runs of white space.\<close>

function split_ws :: "string \<Rightarrow> string list" where
  "split_ws [] = [[]]"
| "split_ws (c # cs) =
     (if is_space c then [] # split_ws (dropWhile is_space cs)
      else (case split_ws cs of
              [] \<Rightarrow> [[c]]
            | w # ws \<Rightarrow> (c # w) # ws))"
  by pat_completeness auto
termination
  by (relation "measure length") (auto simp: length_dropWhile_le less_Suc_eq_le)

definition is_digit :: "char \<Rightarrow> bool" where
  "is_digit c = (c \<in> set ''0123456789'')"

definition digit_val :: "char \<Rightarrow> int" where
  "digit_val c = of_char c - 48"

text \<open>\<^verbatim>\<open>parseInt(ds, 10)\<close> on a string of decimal digits (a capture of \<^verbatim>\<open>\d+\<close>).\<close>

definition parseInt :: "string \<Rightarrow> int" where
  "parseInt ds = foldl (\<lambda>acc c. 10 * acc + digit_val c) 0 ds"

text \<open>Number to string, as a template literal renders an integer.\<close>

fun show_nat :: "nat \<Rightarrow> string" where
  "show_nat n =
     (if n < 10 then [''0123456789'' ! n]
      else show_nat (n div 10) @ [''0123456789'' ! (n mod 10)])"

declare show_nat.simps [simp del]

definition show_int :: "int \<Rightarrow> string" where
  "show_int i = (if i < 0 then CHR ''-'' # show_nat (nat (- i)) else show_nat (nat i))"

text \<open>
  \<^verbatim>\<open>s.match(/pat(\d+)/)\<close> for a literal \<open>pat\<close>: the leftmost place where \<open>pat\<close> is
  followed by a digit; the capture is the longest run of digits there.
\<close>

fun search_digits :: "string \<Rightarrow> string \<Rightarrow> string option" where
  "search_digits pat [] = None"
| "search_digits pat (c # cs) =
     (let ds = takeWhile is_digit (drop (length pat) (c # cs))
      in if startsWith (c # cs) pat \<and> ds \<noteq> [] then Some ds
         else search_digits pat cs)"

text \<open>
  \<^verbatim>\<open>pathname.match(/^\/proxy\/(\d+)(\/.*)?$/)\<close>: the two captures. The dot of a
  JavaScript regular expression matches no line terminator.
\<close>

definition is_line_terminator :: "char \<Rightarrow> bool" where
  "is_line_terminator c = (c \<in> set [CHR 0x0A, CHR 0x0D])"

definition match_proxy :: "string \<Rightarrow> (string \<times> string option) option" where
  "match_proxy pathname =
     (if startsWith pathname ''/proxy/'' then
        (let r = drop 7 pathname;
             ds = takeWhile is_digit r;
             rest = dropWhile is_digit r
         in if ds = [] then None
            else if rest = [] then Some (ds, None)
            else if hd rest = CHR ''/'' \<and> filter is_line_terminator (tl rest) = []
                 then Some (ds, Some rest)
            else None)
      else None)"

subsection \<open>Configuration, outside world, results\<close>

record command =
  name :: string
  command :: string

record config =
  serverPort :: int
  domain :: string
  portRanges :: "(int \<times> int) list"
  quickLaunch :: "command list"

datatype socket_event = Connect | Timeout | Error

text \<open>One entry of the agent's \<^verbatim>\<open>GET /api/tunnels\<close> listing: \<^verbatim>\<open>t.config?.addr\<close> and
  \<^verbatim>\<open>t.public_url\<close>, each possibly absent.\<close>

record tunnel =
  addr :: "string option"
  public_url :: "string option"

text \<open>What a request to the agent's control API ends in: the \<^verbatim>\<open>error\<close> event, the
  timeout, a body on which the \<^verbatim>\<open>try\<close> block throws (with the message thrown), or a
  parsed body.\<close>

datatype 'a api_response = ApiError string | ApiTimeout | ApiThrows string | ApiBody 'a

record created =
  created_url :: "string option"
  error_code :: bool
  msg :: "string option"

record tunnelConfig =
  tc_addr :: string
  proto :: string
  tc_name :: string
  subdomain :: string

datatype agent_event = ProcError string string | StderrData string | ProcClose "int option"

record env =
  socket :: "nat \<Rightarrow> int \<Rightarrow> int \<Rightarrow> socket_event list"
  execSync :: "nat \<Rightarrow> string \<Rightarrow> string + string"
  spawn :: "string \<Rightarrow> string list \<Rightarrow> string option"
  get_tunnels :: "tunnel list option api_response"
  post_tunnel :: "tunnelConfig \<Rightarrow> created api_response"
  writeFileSync :: "string option"
  ngrok_events :: "agent_event list"

text \<open>
  \<open>socket env n port timeout\<close>: the events that the socket of a probe emits, in order.
  \<open>execSync env n cmd\<close>: an external command either throws (\<open>Inl\<close> the message: non-zero
  exit status, timeout, missing tool) or returns its output. The number \<open>n\<close> tells the calls
  of one operation apart, so that the same port or command may meet different outcomes: in
  a scan it is the position of the port in the list of ports, in \<^verbatim>\<open>killByPort\<close> it is
  0 for the listing and \<open>1, 2, ...\<close> for the signals.
  \<open>spawn env file args\<close>: \<open>Some e\<close> when \<^verbatim>\<open>spawn\<close> throws synchronously.
  \<open>get_tunnels env\<close> and \<open>post_tunnel env\<close>: what the agent's control API answers to the
  listing and to a creation request.
  \<open>writeFileSync env\<close>: \<open>Some e\<close> when writing the policy file throws.
  \<open>ngrok_events env\<close>: what the agent process emits before the 3000 ms timer fires.
\<close>

record result =
  success :: bool
  url :: "string option"
  message :: "string option"

text \<open>A scan entry \<^verbatim>\<open>{ port, name, pid }\<close>.\<close>

record service =
  svc_port :: int
  svc_name :: string
  svc_pid :: "string option"

subsection \<open>Liveness prober: \<^verbatim>\<open>checkPort\<close>\<close>

text \<open>A promise is pending, resolved with a value, or rejected with the error thrown.\<close>

datatype 'a promise_state = Pending | Resolved 'a | Rejected string

text \<open>
  The state the three handlers share: the flag \<^verbatim>\<open>resolved\<close>, whether
  \<^verbatim>\<open>socket.destroy()\<close> has run, and the promise. Resolving a settled promise changes
  nothing.
\<close>

record socket_state =
  resolved :: bool
  destroyed :: bool
  promise :: "bool promise_state"

definition settle :: "'a \<Rightarrow> 'a promise_state \<Rightarrow> 'a promise_state" where
  "settle v p = (case p of Pending \<Rightarrow> Resolved v | Resolved w \<Rightarrow> Resolved w | Rejected e \<Rightarrow> Rejected e)"

fun on_event :: "socket_state \<Rightarrow> socket_event \<Rightarrow> socket_state" where
  "on_event st Connect =
     st\<lparr>resolved := True, destroyed := True, promise := settle True (promise st)\<rparr>"
| "on_event st Timeout =
     (if \<not> resolved st
      then st\<lparr>resolved := True, destroyed := True, promise := settle False (promise st)\<rparr>
      else st)"
| "on_event st Error =
     (if \<not> resolved st
      then st\<lparr>resolved := True, destroyed := True, promise := settle False (promise st)\<rparr>
      else st)"

text \<open>
  The executor of the promise runs \<^verbatim>\<open>socket.setTimeout(timeout)\<close>, registers the three
  handlers and ends with \<^verbatim>\<open>socket.connect(port, '127.0.0.1')\<close>, outside any
  \<^verbatim>\<open>try\<close>. Node checks the arguments of both calls at once: \<^verbatim>\<open>setTimeout\<close> throws
  \<^verbatim>\<open>ERR_OUT_OF_RANGE\<close> for a negative duration, and \<^verbatim>\<open>connect\<close> throws
  \<^verbatim>\<open>ERR_SOCKET_BAD_PORT\<close> unless \<open>0 \<le> port < 65536\<close>. An exception thrown in the
  executor rejects the promise; the handlers that run later cannot change it.
\<close>

definition executor_throws :: "int \<Rightarrow> int \<Rightarrow> string option" where
  "executor_throws port timeout =
     (if timeout < 0 then Some ''ERR_OUT_OF_RANGE''
      else if port < 0 \<or> 65535 < port then Some ''ERR_SOCKET_BAD_PORT''
      else None)"

definition checkPort :: "env \<Rightarrow> nat \<Rightarrow> int \<Rightarrow> int \<Rightarrow> socket_state" where
  "checkPort env n port timeout =
     foldl on_event
       \<lparr>resolved = False, destroyed = False,
        promise = (case executor_throws port timeout of
                     None \<Rightarrow> Pending
                   | Some e \<Rightarrow> Rejected e)\<rparr>
       (socket env n port timeout)"

subsection \<open>Port scanner: \<^verbatim>\<open>getPortsToScan\<close>, \<^verbatim>\<open>getProcessInfo\<close>, \<^verbatim>\<open>scanPorts\<close>\<close>

function range_loop :: "int \<Rightarrow> int \<Rightarrow> int list" where
  "range_loop port end = (if port \<le> end then port # range_loop (port + 1) end else [])"
  by pat_completeness auto
termination
  by (relation "measure (\<lambda>(port, end). nat (end + 1 - port))") auto

declare range_loop.simps [simp del]

definition getPortsToScan :: "config \<Rightarrow> int list" where
  "getPortsToScan cfg = concat (map (\<lambda>(start, end). range_loop start end) (portRanges cfg))"

definition nth_opt :: "'a list \<Rightarrow> nat \<Rightarrow> 'a option" where
  "nth_opt xs i = (if i < length xs then Some (xs ! i) else None)"

text \<open>
  Truthiness of a string that may be undefined: \<open>truthy x\<close> is \<^verbatim>\<open>x || null\<close> and
  \<open>or_else x d\<close> is \<^verbatim>\<open>x || d\<close>; the empty string is falsy.
\<close>

definition truthy :: "string option \<Rightarrow> string option" where
  "truthy x = (case x of None \<Rightarrow> None | Some s \<Rightarrow> if s = [] then None else Some s)"

definition or_else :: "string option \<Rightarrow> string \<Rightarrow> string" where
  "or_else x d = (case truthy x of None \<Rightarrow> d | Some s \<Rightarrow> s)"

definition getProcessInfo :: "env \<Rightarrow> nat \<Rightarrow> int \<Rightarrow> string \<times> string option" where
  "getProcessInfo env n port =
     (case execSync env n (''lsof -i :'' @ show_int port @ '' -P -n | grep LISTEN'') of
        Inl e \<Rightarrow> (''unknown'', None)
      | Inr output \<Rightarrow>
          (let lines = split_char (CHR 0x0A) (trim output)
           in if length lines > 0 then
                (let parts = split_ws (hd lines)
                 in (or_else (nth_opt parts 0) ''unknown'', truthy (nth_opt parts 1)))
              else (''unknown'', None)))"

text \<open>
  One element of \<^verbatim>\<open>batch.map(async (port) => ...)\<close>: the promise of the callback. It is
  pending while the probe's promise is, rejected when \<^verbatim>\<open>await checkPort(port)\<close> throws,
  and else resolved with \<^verbatim>\<open>null\<close> (\<open>None\<close>) or an entry.
\<close>

definition scan_port ::
  "config \<Rightarrow> env \<Rightarrow> nat \<Rightarrow> int \<Rightarrow> service option promise_state" where
  "scan_port cfg env n port =
     (if port = serverPort cfg then Resolved None
      else (case promise (checkPort env n port 100) of
              Pending \<Rightarrow> Pending
            | Rejected e \<Rightarrow> Rejected e
            | Resolved isOpen \<Rightarrow>
                if isOpen then
                  (let processInfo = getProcessInfo env n port
                   in Resolved (Some \<lparr>svc_port = port, svc_name = fst processInfo,
                                      svc_pid = snd processInfo\<rparr>))
                else Resolved None))"

text \<open>\<^verbatim>\<open>Promise.all\<close>: rejected as soon as one element is, resolved with all the values
  when every element is resolved, and pending otherwise.\<close>

fun promise_all :: "'a promise_state list \<Rightarrow> 'a list promise_state" where
  "promise_all [] = Resolved []"
| "promise_all (p # ps) =
     (case p of
        Rejected e \<Rightarrow> Rejected e
      | Pending \<Rightarrow> (case promise_all ps of Rejected e \<Rightarrow> Rejected e | _ \<Rightarrow> Pending)
      | Resolved x \<Rightarrow>
          (case promise_all ps of
             Resolved xs \<Rightarrow> Resolved (x # xs)
           | Pending \<Rightarrow> Pending
           | Rejected e \<Rightarrow> Rejected e))"

text \<open>The \<^verbatim>\<open>for\<close> loop over batches of 50, each awaited before the next starts.\<close>

function scan_loop ::
  "config \<Rightarrow> env \<Rightarrow> int list \<Rightarrow> nat \<Rightarrow> service list \<Rightarrow> service list promise_state" where
  "scan_loop cfg env portsToScan i results =
     (if i < length portsToScan then
        (let batch = take 50 (drop i portsToScan)
         in case promise_all (map (\<lambda>(j, port). scan_port cfg env j port) (enumerate i batch)) of
              Pending \<Rightarrow> Pending
            | Rejected e \<Rightarrow> Rejected e
            | Resolved checks \<Rightarrow>
                scan_loop cfg env portsToScan (i + 50) (results @ List.map_filter id checks))
      else Resolved results)"
  by pat_completeness auto
termination
  by (relation "measure (\<lambda>(cfg, env, portsToScan, i, results). length portsToScan - i)") auto

declare scan_loop.simps [simp del]

definition scanPorts :: "config \<Rightarrow> env \<Rightarrow> service list promise_state" where
  "scanPorts cfg env = scan_loop cfg env (getPortsToScan cfg) 0 []"

subsection \<open>Process lifecycle: \<^verbatim>\<open>killByPort\<close>, \<^verbatim>\<open>launchCommand\<close>\<close>

text \<open>The \<^verbatim>\<open>for (const pid of pids)\<close> loop: \<open>Some e\<close> when a \<^verbatim>\<open>kill\<close> throws.\<close>

fun kill_loop :: "env \<Rightarrow> nat \<Rightarrow> string list \<Rightarrow> string option" where
  "kill_loop env n [] = None"
| "kill_loop env n (pid # pids) =
     (case execSync env n (''kill -9 '' @ pid) of
        Inl e \<Rightarrow> Some e
      | Inr out \<Rightarrow> kill_loop env (Suc n) pids)"

definition parse_pids :: "string \<Rightarrow> string list" where
  "parse_pids output = filter (\<lambda>s. s \<noteq> []) (split_char (CHR 0x0A) (trim output))"

definition killByPort :: "env \<Rightarrow> int \<Rightarrow> result" where
  "killByPort env port =
     (case execSync env 0 (''lsof -i :'' @ show_int port @ '' -P -n -t'') of
        Inl e \<Rightarrow>
          \<lparr>success = False, url = None,
           message = Some (''Failed to kill process on port '' @ show_int port @ '': '' @ e)\<rparr>
      | Inr output \<Rightarrow>
          (case kill_loop env 1 (parse_pids output) of
             Some e \<Rightarrow>
               \<lparr>success = False, url = None,
                message = Some (''Failed to kill process on port '' @ show_int port @ '': '' @ e)\<rparr>
           | None \<Rightarrow>
               \<lparr>success = True, url = None,
                message = Some (''Killed process(es) on port '' @ show_int port)\<rparr>))"

text \<open>
  \<^verbatim>\<open>launchCommand\<close> returns its result and the processes it has started (file and
  arguments, spawned detached with \<^verbatim>\<open>stdio: 'ignore'\<close>). \<^verbatim>\<open>quickLaunch[index]\<close> is
  undefined outside the array.
\<close>

definition launchCommand :: "config \<Rightarrow> env \<Rightarrow> int \<Rightarrow> result \<times> (string \<times> string list) list" where
  "launchCommand cfg env index =
     (case (if 0 \<le> index then nth_opt (quickLaunch cfg) (nat index) else None) of
        None \<Rightarrow> (\<lparr>success = False, url = None, message = Some ''Invalid command index''\<rparr>, [])
      | Some cmd \<Rightarrow>
          (let parts = split_char CHR '' '' (command cmd);
               executable = hd parts;
               args = tl parts
           in case spawn env executable args of
                Some e \<Rightarrow>
                  (\<lparr>success = False, url = None,
                    message = Some (''Failed to start '' @ name cmd @ '': '' @ e)\<rparr>, [])
              | None \<Rightarrow>
                  (\<lparr>success = True, url = None, message = Some (''Started: '' @ name cmd)\<rparr>,
                   [(executable, args)])))"

subsection \<open>Tunnel session manager: per-port tunnels\<close>

text \<open>
  \<^verbatim>\<open>activeTunnels\<close> is a JavaScript \<^verbatim>\<open>Map\<close> from port to URL, embedded as the list of
  its entries in insertion order; \<^verbatim>\<open>activeTunnels.set\<close> is \<^const>\<open>AList.update\<close>
  (overwrite in place, or append).
\<close>

type_synonym tunnels = "(int \<times> string) list"

text \<open>The predicate of \<^verbatim>\<open>find\<close> in \<^verbatim>\<open>getNgrokTunnelUrl\<close>.\<close>

definition targets_port :: "int \<Rightarrow> tunnel \<Rightarrow> bool" where
  "targets_port port t =
     ((case addr t of None \<Rightarrow> False | Some a \<Rightarrow> str_includes a (CHR '':'' # show_int port)) \<and>
      (case public_url t of None \<Rightarrow> False | Some u \<Rightarrow> startsWith u ''https''))"

definition getNgrokTunnelUrl :: "env \<Rightarrow> int \<Rightarrow> string option" where
  "getNgrokTunnelUrl env port =
     (case get_tunnels env of
        ApiBody (Some ts) \<Rightarrow>
          (case find (targets_port port) ts of
             None \<Rightarrow> None
           | Some t \<Rightarrow> truthy (public_url t))
      | _ \<Rightarrow> None)"

definition failure :: "string \<Rightarrow> result" where
  "failure m = \<lparr>success = False, url = None, message = Some m\<rparr>"

definition createTunnel :: "env \<Rightarrow> tunnels \<Rightarrow> int \<Rightarrow> result \<times> tunnels" where
  "createTunnel env activeTunnels port =
     (case getNgrokTunnelUrl env port of
        Some existingUrl \<Rightarrow>
          (\<lparr>success = True, url = Some existingUrl, message = Some ''Tunnel already exists''\<rparr>,
           AList.update port existingUrl activeTunnels)
      | None \<Rightarrow>
          (case post_tunnel env
                  \<lparr>tc_addr = ''http://localhost:'' @ show_int port, proto = ''http'',
                   tc_name = ''porthole-'' @ show_int port,
                   subdomain = ''porthole-'' @ show_int port\<rparr> of
             ApiBody r \<Rightarrow>
               (case truthy (created_url r) of
                  Some p \<Rightarrow>
                    (let u = (if startsWith p ''https'' then p
                              else replace p ''http://'' ''https://'')
                     in (\<lparr>success = True, url = Some u, message = None\<rparr>,
                         AList.update port u activeTunnels))
                | None \<Rightarrow>
                    if error_code r
                    then (failure (or_else (msg r) ''Failed to create tunnel''), activeTunnels)
                    else (failure ''Unexpected response from ngrok'', activeTunnels))
           | ApiThrows e \<Rightarrow> (failure (''Parse error: '' @ e), activeTunnels)
           | ApiError e \<Rightarrow> (failure (''ngrok API error: '' @ e), activeTunnels)
           | ApiTimeout \<Rightarrow> (failure ''Timeout connecting to ngrok API'', activeTunnels)))"


subsection \<open>Tunnel session manager: startup\<close>

record existing =
  exists :: bool
  existing_url :: "string option"
  hasOtherTunnels :: bool








subsection \<open>Reverse proxy router: the request handler\<close>

text \<open>A request after \<^verbatim>\<open>new URL(req.url, ...)\<close>: the pathname, and the search string
  (empty, or starting with a question mark). Node gives header names in lower case.\<close>

record request =
  req_method :: string
  pathname :: string
  search :: string
  headers :: "(string \<times> string) list"

datatype body =
    PortsJson "service list"
  | ResultJson result
  | CommandsJson "command list"
  | TunnelsJson "(int \<times> string) list"
  | ErrorJson string
  | NoProxyTargetHtml
  | DashboardHtml string
  | NoBody

text \<open>The options of \<^verbatim>\<open>http.request\<close> when a request is passed on; the answer of the
  upstream (or a 502 on its error) is then relayed.\<close>

record forward =
  hostname :: string
  to_port :: int
  path :: string
  with_method :: string
  with_headers :: "(string \<times> string) list"

text \<open>What the handler does with a request: it writes a response, passes the request on,
  never answers (its promise stays pending), or ends in an unhandled rejection.\<close>

datatype response =
    Respond nat "(string \<times> string) list" body
  | Forward forward
  | Unanswered
  | Unhandled string

definition json :: "(string \<times> string) list" where
  "json = [(''Content-Type'', ''application/json'')]"

definition html :: "(string \<times> string) list" where
  "html = [(''Content-Type'', ''text/html'')]"

text \<open>\<^verbatim>\<open>cookies.match(/porthole_proxy_port=(\d+)/)\<close> and \<^verbatim>\<open>parseInt\<close>, or \<^verbatim>\<open>null\<close>.\<close>

definition cookie_port :: "request \<Rightarrow> int option" where
  "cookie_port req =
     (let cookies = or_else (map_of (headers req) ''cookie'') []
      in case search_digits ''porthole_proxy_port='' cookies of
           None \<Rightarrow> None
         | Some ds \<Rightarrow> Some (parseInt ds))"

text \<open>\<^verbatim>\<open>if (targetPort)\<close>: \<^verbatim>\<open>null\<close> and \<open>0\<close> are falsy.\<close>

definition truthy_port :: "int option \<Rightarrow> int option" where
  "truthy_port x = (case x of None \<Rightarrow> None | Some n \<Rightarrow> if n = 0 then None else Some n)"

definition forward_to :: "request \<Rightarrow> int \<Rightarrow> string \<Rightarrow> response" where
  "forward_to req targetPort targetPath =
     Forward \<lparr>hostname = ''127.0.0.1'', to_port = targetPort, path = targetPath,
              with_method = req_method req,
              with_headers =
                AList.update ''host'' (''localhost:'' @ show_int targetPort) (headers req)\<rparr>"

text \<open>
  The routes after the API routes: selection (\<^verbatim>\<open>/proxy/{port}/...\<close>), the canonical
  path \<^verbatim>\<open>/p\<close>, bare paths with a cookie, the dashboard, and 404.
\<close>

definition proxy_routes :: "config \<Rightarrow> request \<Rightarrow> response" where
  "proxy_routes cfg req =
     (case match_proxy (pathname req) of
        Some (ds, sub) \<Rightarrow>
          (let targetPort = parseInt ds;
               targetPath = or_else sub ''/''
           in Respond 302
                [(''Set-Cookie'',
                  ''porthole_proxy_port='' @ show_int targetPort @ ''; Path=/; SameSite=Lax''),
                 (''Location'', ''/p'' @ targetPath @ search req)]
                NoBody)
      | None \<Rightarrow>
          if startsWith (pathname req) ''/p/'' \<or> pathname req = ''/p'' then
            (case truthy_port (cookie_port req) of
               None \<Rightarrow> Respond 400 html NoProxyTargetHtml
             | Some targetPort \<Rightarrow>
                 (let targetPath = or_else (Some (drop 2 (pathname req))) ''/''
                  in forward_to req targetPort (targetPath @ search req)))
          else
            (case (if \<not> startsWith (pathname req) ''/api/'' \<and> pathname req \<noteq> ''/''
                   then truthy_port (cookie_port req) else None) of
               Some targetPort \<Rightarrow> forward_to req targetPort (pathname req @ search req)
             | None \<Rightarrow>
                 if pathname req = ''/'' \<and> req_method req = ''GET''
                 then Respond 200 html (DashboardHtml (''https://'' @ domain cfg))
                 else Respond 404 json (ErrorJson ''Not found'')))"

text \<open>
  The handler of \<^verbatim>\<open>http.createServer\<close>, route by route in the order of the source. It
  returns the response, the active-tunnel map and the processes started.
\<close>

definition handler ::
  "config \<Rightarrow> env \<Rightarrow> tunnels \<Rightarrow> request
     \<Rightarrow> response \<times> tunnels \<times> (string \<times> string list) list" where
  "handler cfg env activeTunnels req =
     (if pathname req = ''/api/ports'' \<and> req_method req = ''GET'' then
        (case scanPorts cfg env of
           Pending \<Rightarrow> (Unanswered, activeTunnels, [])
         | Rejected e \<Rightarrow> (Unhandled e, activeTunnels, [])
         | Resolved ports \<Rightarrow> (Respond 200 json (PortsJson ports), activeTunnels, []))
      else if startsWith (pathname req) ''/api/kill/'' \<and> req_method req = ''POST'' then
        (case search_digits ''/api/kill/'' (pathname req) of
           None \<Rightarrow>
             (Respond 400 json (ResultJson (failure (''Invalid port: '' @ pathname req))),
              activeTunnels, [])
         | Some ds \<Rightarrow>
             (Respond 200 json (ResultJson (killByPort env (parseInt ds))), activeTunnels, []))
      else if startsWith (pathname req) ''/api/launch/'' \<and> req_method req = ''POST'' then
        (case search_digits ''/api/launch/'' (pathname req) of
           None \<Rightarrow>
             (Respond 400 json (ResultJson (failure ''Invalid command index'')),
              activeTunnels, [])
         | Some ds \<Rightarrow>
             (let launched = launchCommand cfg env (parseInt ds)
              in (Respond 200 json (ResultJson (fst launched)), activeTunnels, snd launched)))
      else if pathname req = ''/api/commands'' \<and> req_method req = ''GET'' then
        (Respond 200 json (CommandsJson (quickLaunch cfg)), activeTunnels, [])
      else if startsWith (pathname req) ''/api/tunnel/'' \<and> req_method req = ''POST'' then
        (case search_digits ''/api/tunnel/'' (pathname req) of
           None \<Rightarrow>
             (Respond 400 json (ResultJson (failure ''Invalid port'')), activeTunnels, [])
         | Some ds \<Rightarrow>
             (let created = createTunnel env activeTunnels (parseInt ds)
              in (Respond 200 json (ResultJson (fst created)), snd created, [])))
      else if pathname req = ''/api/tunnels'' \<and> req_method req = ''GET'' then
        (Respond 200 json (TunnelsJson activeTunnels), activeTunnels, [])
      else (proxy_routes cfg req, activeTunnels, []))"

subsection \<open>An example configuration and outside worlds\<close>

text \<open>The configuration of the README, with narrow port ranges; the second range contains
  the gateway's own port.\<close>

definition example_config :: config where
  "example_config =
     \<lparr>serverPort = 8888, domain = ''your-subdomain.ngrok.dev'',
      portRanges = [(3000, 3002), (8887, 8889)],
      quickLaunch = [\<lparr>name = ''My App'', command = ''npm run dev''\<rparr>]\<rparr>"

text \<open>Nothing listens, every external command fails, the agent is not running.\<close>

definition offline :: env where
  "offline =
     \<lparr>socket = (\<lambda>n port timeout. [Error]),
      execSync = (\<lambda>n cmd. Inl ''Command failed''),
      spawn = (\<lambda>file args. None),
      get_tunnels = ApiError ''connect ECONNREFUSED 127.0.0.1:4040'',
      post_tunnel = (\<lambda>c. ApiError ''connect ECONNREFUSED 127.0.0.1:4040''),
      writeFileSync = None,
      ngrok_events = []\<rparr>"

text \<open>Listeners on 3000 and on the gateway's own port 8888; \<^verbatim>\<open>lsof\<close> knows the first.\<close>

definition listening :: env where
  "listening =
     offline
       \<lparr>socket := (\<lambda>n port timeout.
                    if port = 3000 \<or> port = 8888 then [Connect] else [Timeout, Error]),
        execSync := (\<lambda>n cmd.
                    if cmd = ''lsof -i :3000 -P -n | grep LISTEN''
                    then Inr (''node    4242 me   23u  IPv4 0x1234      0t0  TCP *:3000 (LISTEN)''
                              @ [CHR 0x0A])
                    else Inl ''Command failed'')\<rparr>"











text \<open>A quick-launch entry whose command line is empty, and \<^verbatim>\<open>spawn\<close> as Node has it:
  it throws on an empty file name.\<close>

definition blank_command :: config where
  "blank_command = example_config\<lparr>quickLaunch := [\<lparr>name = ''Blank'', command = []\<rparr>]\<rparr>"

definition node_spawn :: env where
  "node_spawn =
     offline\<lparr>spawn := (\<lambda>file args.
                  if file = [] then Some ''The argument file cannot be empty'' else None)\<rparr>"

definition with_cookie :: "string \<Rightarrow> string \<Rightarrow> string \<Rightarrow> request" where
  "with_cookie p q c =
     \<lparr>req_method = ''GET'', pathname = p, search = q,
      headers = [(''host'', ''your-subdomain.ngrok.dev''), (''cookie'', c)]\<rparr>"

section \<open>Properties\<close>

subsection \<open>Strings and numbers\<close>

lemma startsWith_iff: "startsWith s p \<longleftrightarrow> (\<exists>r. s = p @ r)"
  unfolding startsWith_def
  by (metis append_eq_conv_conj append_take_drop_id)


lemma digit_char: "d < 10 \<Longrightarrow> is_digit (''0123456789'' ! d) \<and> digit_val (''0123456789'' ! d) = int d"
proof -
  assume "d < 10"
  then have "d = 0 \<or> d = 1 \<or> d = 2 \<or> d = 3 \<or> d = 4 \<or> d = 5 \<or> d = 6 \<or> d = 7
    \<or> d = 8 \<or> d = 9" by arith
  then show ?thesis
    by (elim disjE) (simp_all add: is_digit_def digit_val_def)
qed

lemma show_nat_nonempty: "show_nat n \<noteq> []"
  by (subst show_nat.simps) simp

lemma show_nat_digits: "list_all is_digit (show_nat n)"
proof (induction n rule: show_nat.induct)
  case (1 n)
  show ?case
  proof (cases "n < 10")
    case True
    then show ?thesis by (subst show_nat.simps) (simp add: digit_char)
  next
    case False
    then have "list_all is_digit (show_nat (n div 10))" using "1" by simp
    moreover have "is_digit (''0123456789'' ! (n mod 10))" by (simp add: digit_char)
    ultimately show ?thesis using False by (subst show_nat.simps) simp
  qed
qed

lemma parseInt_snoc: "parseInt (ds @ [c]) = 10 * parseInt ds + digit_val c"
  by (simp add: parseInt_def)

lemma parseInt_show_nat: "parseInt (show_nat n) = int n"
proof (induction n rule: show_nat.induct)
  case (1 n)
  show ?case
  proof (cases "n < 10")
    case True
    then show ?thesis by (subst show_nat.simps) (simp add: digit_char parseInt_def)
  next
    case False
    then have "parseInt (show_nat (n div 10)) = int (n div 10)" using "1" by simp
    moreover have "digit_val (''0123456789'' ! (n mod 10)) = int (n mod 10)" by (simp add: digit_char)
    ultimately have "parseInt (show_nat (n div 10) @ [''0123456789'' ! (n mod 10)]) = int n"
      by (simp add: parseInt_snoc zdiv_int zmod_int)
    then show ?thesis using False by (subst show_nat.simps) simp
  qed
qed

lemma takeWhile_digits:
  "list_all is_digit ds \<Longrightarrow> rest = [] \<or> \<not> is_digit (hd rest) \<Longrightarrow> takeWhile is_digit (ds @ rest) = ds"
  by (induction ds) (auto simp: takeWhile_eq_Nil_iff)

lemma search_digits_here:
  assumes "ds \<noteq> []" "list_all is_digit ds" "rest = [] \<or> \<not> is_digit (hd rest)" "pat \<noteq> []"
  shows "search_digits pat (pat @ ds @ rest) = Some ds"
proof -
  obtain c cs where p: "pat @ ds @ rest = c # cs" using assms(4) by (cases pat) auto
  have "startsWith (pat @ ds @ rest) pat" by (simp add: startsWith_iff)
  moreover have "takeWhile is_digit (drop (length pat) (pat @ ds @ rest)) = ds"
    using assms by (simp add: takeWhile_digits)
  ultimately show ?thesis using assms(1) unfolding p by (simp add: Let_def)
qed

lemma split_char_nonempty: "split_char sep s \<noteq> []"
  by (induction s) (auto split: list.splits)

lemma startsWith_longer:
  "length p \<le> length x \<Longrightarrow> startsWith (x @ y) p \<longleftrightarrow> startsWith x p"
  by (simp add: startsWith_def)

lemma search_digits_skip:
  assumes "\<not> str_includes (before @ butlast pat) pat" "pat \<noteq> []"
  shows "search_digits pat (before @ pat @ s) = search_digits pat (pat @ s)"
  using assms(1)
proof (induction before)
  case Nil
  then show ?case by simp
next
  case (Cons c bs)
  from Cons.prems have n: "\<not> startsWith ((c # bs) @ butlast pat) pat"
    and r: "\<not> str_includes (bs @ butlast pat) pat" by simp_all
  have "(c # bs) @ pat @ s = ((c # bs) @ butlast pat) @ (last pat # s)"
    using assms(2) by simp
  moreover have "length pat \<le> length ((c # bs) @ butlast pat)" by simp
  ultimately have "startsWith ((c # bs) @ pat @ s) pat \<longleftrightarrow> startsWith ((c # bs) @ butlast pat) pat"
    by (simp only: startsWith_longer)
  with n have "\<not> startsWith (c # bs @ pat @ s) pat" by simp
  then have "search_digits pat ((c # bs) @ pat @ s) = search_digits pat (bs @ pat @ s)"
    by (simp add: Let_def)
  with Cons.IH [OF r] show ?case by simp
qed

subsection \<open>Liveness prober\<close>

lemma foldl_on_event_settled:
  "resolved st \<Longrightarrow> destroyed st \<Longrightarrow> promise st = Resolved b \<Longrightarrow>
   resolved (foldl on_event st es) \<and> destroyed (foldl on_event st es)
   \<and> promise (foldl on_event st es) = Resolved b"
proof (induction es arbitrary: st)
  case Nil
  then show ?case by simp
next
  case (Cons e es)
  have "resolved (on_event st e) \<and> destroyed (on_event st e)
        \<and> promise (on_event st e) = Resolved b"
    using Cons.prems by (cases e) (simp_all add: settle_def)
  then show ?case using Cons.IH by simp
qed

lemma foldl_on_event_rejected:
  "promise st = Rejected e \<Longrightarrow> promise (foldl on_event st es) = Rejected e"
proof (induction es arbitrary: st)
  case Nil
  then show ?case by simp
next
  case (Cons x es)
  have "promise (on_event st x) = Rejected e"
    using Cons.prems by (cases x) (simp_all add: settle_def)
  then show ?case using Cons.IH by simp
qed

lemma checkPort_first_event:
  assumes "executor_throws port timeout = None" "socket env n port timeout = e # es"
  shows "promise (checkPort env n port timeout) = Resolved (e = Connect)
         \<and> destroyed (checkPort env n port timeout)"
proof -
  let ?st = "on_event \<lparr>resolved = False, destroyed = False, promise = Pending\<rparr> e"
  have "resolved ?st" "destroyed ?st" "promise ?st = Resolved (e = Connect)"
    by (cases e; simp add: settle_def)+
  from foldl_on_event_settled [OF this, of es] show ?thesis
    by (simp add: checkPort_def assms)
qed

lemma checkPort_rejected:
  assumes "executor_throws port timeout = Some x"
  shows "promise (checkPort env n port timeout) = Rejected x"
  unfolding checkPort_def by (rule foldl_on_event_rejected) (simp add: assms)

lemma checkPort_resolved_destroyed:
  assumes "promise (checkPort env n port timeout) = Resolved b"
  shows "destroyed (checkPort env n port timeout)"
proof (cases "executor_throws port timeout")
  case (Some x)
  from checkPort_rejected [OF this, of env n] assms show ?thesis by simp
next
  case None
  show ?thesis
  proof (cases "socket env n port timeout")
    case Nil
    with None assms show ?thesis by (simp add: checkPort_def)
  next
    case (Cons e es)
    from checkPort_first_event [OF None this] show ?thesis by simp
  qed
qed

text \<open>
  Claim C6, as amended. For every port from 0 to 65535 and every timeout that is not
  negative, the promise of \<^verbatim>\<open>checkPort\<close> resolves to a boolean decided by the first
  event of the socket: \<open>true\<close> when it is \<^verbatim>\<open>connect\<close>, \<open>false\<close> when it is
  \<^verbatim>\<open>timeout\<close> or \<^verbatim>\<open>error\<close> (it stays pending only if the socket emits nothing);
  later events do not change the value, and the promise is never rejected. For every port
  and timeout, a promise that is resolved implies that the socket has been destroyed. For
  a port outside 0 to 65535, or a negative timeout, the executor throws and the promise is
  rejected, whatever the socket emits later.
\<close>

theorem checkPort_resolves:
  "(0 \<le> port \<and> port \<le> 65535 \<and> 0 \<le> timeout \<longrightarrow>
      (socket env n port timeout = [] \<longrightarrow> promise (checkPort env n port timeout) = Pending) \<and>
      (\<forall>es. socket env n port timeout = Connect # es
         \<longrightarrow> promise (checkPort env n port timeout) = Resolved True) \<and>
      (\<forall>es. socket env n port timeout = Timeout # es \<or> socket env n port timeout = Error # es
         \<longrightarrow> promise (checkPort env n port timeout) = Resolved False) \<and>
      (\<forall>x. promise (checkPort env n port timeout) \<noteq> Rejected x)) \<and>
   (\<forall>b. promise (checkPort env n port timeout) = Resolved b
      \<longrightarrow> destroyed (checkPort env n port timeout)) \<and>
   (port < 0 \<or> 65535 < port \<or> timeout < 0 \<longrightarrow>
      (\<exists>x. promise (checkPort env n port timeout) = Rejected x))"
proof (intro conjI impI allI)
  assume "port < 0 \<or> 65535 < port \<or> timeout < 0"
  then have "executor_throws port timeout \<noteq> None"
    by (auto simp: executor_throws_def)
  then obtain x where "executor_throws port timeout = Some x" by auto
  then show "\<exists>x. promise (checkPort env n port timeout) = Rejected x"
    using checkPort_rejected by blast
next
  fix b assume "promise (checkPort env n port timeout) = Resolved b"
  then show "destroyed (checkPort env n port timeout)" by (rule checkPort_resolved_destroyed)
next
  assume "0 \<le> port \<and> port \<le> 65535 \<and> 0 \<le> timeout"
  then have ok: "executor_throws port timeout = None" by (simp add: executor_throws_def)
  {
    assume "socket env n port timeout = []"
    with ok show "promise (checkPort env n port timeout) = Pending"
      by (simp add: checkPort_def)
  next
    fix es assume "socket env n port timeout = Connect # es"
    from checkPort_first_event [OF ok this]
    show "promise (checkPort env n port timeout) = Resolved True" by simp
  next
    fix es
    assume "socket env n port timeout = Timeout # es \<or> socket env n port timeout = Error # es"
    then show "promise (checkPort env n port timeout) = Resolved False"
      using checkPort_first_event [OF ok] by auto
  next
    fix x
    show "promise (checkPort env n port timeout) \<noteq> Rejected x"
    proof (cases "socket env n port timeout")
      case Nil
      with ok show ?thesis by (simp add: checkPort_def)
    next
      case (Cons e es)
      from checkPort_first_event [OF ok this] show ?thesis by simp
    qed
  }
qed

theorem checkPort_resolves_witness:
  "socket listening 0 3000 100 = [Connect] \<and>
   promise (checkPort listening 0 3000 100) = Resolved True \<and>
   socket listening 1 3001 100 = [Timeout, Error] \<and>
   promise (checkPort listening 1 3001 100) = Resolved False \<and>
   destroyed (checkPort listening 0 3000 100) \<and> destroyed (checkPort listening 1 3001 100) \<and>
   (\<exists>x. promise (checkPort listening 2 (- 1) 100) = Rejected x)"
proof -
  have a: "socket listening 0 3000 100 = [Connect]"
    and b: "socket listening 1 3001 100 = [Timeout, Error]"
    by (simp_all add: listening_def offline_def)
  from checkPort_resolves [of 3000 100 listening 0] a
  have c: "promise (checkPort listening 0 3000 100) = Resolved True" by simp
  from checkPort_resolves [of 3000 100 listening 0] c
  have c': "destroyed (checkPort listening 0 3000 100)" by blast
  from checkPort_resolves [of 3001 100 listening 1] b
  have d: "promise (checkPort listening 1 3001 100) = Resolved False" by simp
  from checkPort_resolves [of 3001 100 listening 1] d
  have d': "destroyed (checkPort listening 1 3001 100)" by blast
  from checkPort_resolves [of "- 1" 100 listening 2]
  have r: "\<exists>x. promise (checkPort listening 2 (- 1) 100) = Rejected x" by simp
  from a c b d c' d' r show ?thesis by (intro conjI)
qed

text \<open>
  The claim as stated fails for a port that the socket library refuses: with the range
  end 70000 in the configuration, the probe of port 70000 is a rejected promise, also when
  the socket's idle timer fires afterwards.
\<close>

theorem bad_port_rejects:
  "socket listening 0 70000 100 = [Timeout, Error] \<and>
   promise (checkPort listening 0 70000 100) = Rejected ''ERR_SOCKET_BAD_PORT''"
  by (simp add: checkPort_def executor_throws_def listening_def offline_def settle_def)

subsection \<open>Port scanner\<close>

lemma promise_all_Resolved: "promise_all ps = Resolved xs \<Longrightarrow> ps = map Resolved xs"
proof (induction ps arbitrary: xs)
  case Nil
  then show ?case by simp
next
  case (Cons p ps)
  from Cons.prems obtain y ys where "p = Resolved y" "promise_all ps = Resolved ys" "xs = y # ys"
    by (cases p; cases "promise_all ps") simp_all
  with Cons.IH show ?case by simp
qed

lemma promise_all_settles: "Pending \<notin> set ps \<Longrightarrow> promise_all ps \<noteq> Pending"
proof (induction ps)
  case Nil
  then show ?case by simp
next
  case (Cons p ps)
  then have "p \<noteq> Pending" "promise_all ps \<noteq> Pending" by auto
  then show ?case by (cases p; cases "promise_all ps") simp_all
qed

lemma promise_all_returns:
  "\<forall>p \<in> set ps. \<exists>x. p = Resolved x \<Longrightarrow> \<exists>xs. promise_all ps = Resolved xs"
proof (induction ps)
  case Nil
  then show ?case by simp
next
  case (Cons p ps)
  then obtain y ys where "p = Resolved y" "promise_all ps = Resolved ys" by auto
  then show ?case by simp
qed

lemma scan_port_not_own:
  "scan_port cfg env n port = Resolved (Some s) \<Longrightarrow> svc_port s \<noteq> serverPort cfg"
  by (auto simp: scan_port_def Let_def split: if_splits promise_state.splits)

lemma batch_not_own:
  assumes "promise_all (map (\<lambda>(j, port). scan_port cfg env j port) jps) = Resolved checks"
    and "s \<in> set (List.map_filter id checks)"
  shows "svc_port s \<noteq> serverPort cfg"
proof -
  from assms(1) have "map (\<lambda>(j, port). scan_port cfg env j port) jps = map Resolved checks"
    by (rule promise_all_Resolved)
  moreover from assms(2) have "Some s \<in> set checks" by (auto simp: List.map_filter_def)
  ultimately have "Resolved (Some s) \<in> set (map (\<lambda>(j, port). scan_port cfg env j port) jps)"
    by simp
  then obtain j port where "scan_port cfg env j port = Resolved (Some s)" by auto
  then show ?thesis by (rule scan_port_not_own)
qed

lemma scan_loop_not_own:
  "scan_loop cfg env portsToScan i results = Resolved found \<Longrightarrow>
   \<forall>s \<in> set results. svc_port s \<noteq> serverPort cfg \<Longrightarrow>
   \<forall>s \<in> set found. svc_port s \<noteq> serverPort cfg"
proof (induction cfg env portsToScan i results rule: scan_loop.induct)
  case (1 cfg env portsToScan i results)
  show ?case
  proof (cases "i < length portsToScan")
    case False
    with "1.prems" show ?thesis by (simp add: scan_loop.simps)
  next
    case True
    let ?batch = "take 50 (drop i portsToScan)"
    let ?all = "promise_all (map (\<lambda>(j, port). scan_port cfg env j port) (enumerate i ?batch))"
    from True "1.prems"(1) obtain checks where c: "?all = Resolved checks"
      and r: "scan_loop cfg env portsToScan (i + 50) (results @ List.map_filter id checks)
                = Resolved found"
      by (subst (asm) scan_loop.simps) (auto simp: Let_def split: promise_state.splits)
    have "\<forall>s \<in> set (results @ List.map_filter id checks). svc_port s \<noteq> serverPort cfg"
      using "1.prems"(2) batch_not_own [OF c] by auto
    with "1.IH" [OF True refl c r] show ?thesis .
  qed
qed

lemma checkPort_settles:
  assumes "socket env n port timeout \<noteq> []"
  shows "promise (checkPort env n port timeout) \<noteq> Pending"
proof (cases "executor_throws port timeout")
  case (Some x)
  from checkPort_rejected [OF this, of env n] show ?thesis by simp
next
  case None
  from assms obtain e es where "socket env n port timeout = e # es"
    by (cases "socket env n port timeout") auto
  from checkPort_first_event [OF None this] show ?thesis by simp
qed

lemma scan_port_settles:
  "socket env n port 100 \<noteq> [] \<Longrightarrow> scan_port cfg env n port \<noteq> Pending"
  using checkPort_settles [of env n port 100]
  by (simp add: scan_port_def Let_def split: promise_state.splits)

lemma scan_port_returns:
  assumes "socket env n port 100 \<noteq> []" "port = serverPort cfg \<or> 0 \<le> port \<and> port \<le> 65535"
  shows "\<exists>x. scan_port cfg env n port = Resolved x"
proof (cases "port = serverPort cfg")
  case True
  then show ?thesis by (simp add: scan_port_def)
next
  case False
  with assms(2) have ok: "executor_throws port 100 = None" by (simp add: executor_throws_def)
  from assms(1) obtain e es where "socket env n port 100 = e # es"
    by (cases "socket env n port 100") auto
  from checkPort_first_event [OF ok this] False show ?thesis
    by (simp add: scan_port_def Let_def)
qed

lemma in_batch:
  assumes "jp \<in> set (enumerate i (take 50 (drop i portsToScan)))"
  shows "snd jp \<in> set portsToScan"
proof -
  from assms have "(fst jp, snd jp) \<in> set (enumerate i (take 50 (drop i portsToScan)))"
    by simp
  then have "snd jp \<in> set (take 50 (drop i portsToScan))"
    unfolding enumerate_eq_zip by (rule set_zip_rightD)
  then show ?thesis by (blast dest: in_set_takeD in_set_dropD)
qed

lemma scan_loop_settles:
  "\<forall>n port. socket env n port 100 \<noteq> [] \<Longrightarrow>
   scan_loop cfg env portsToScan i results \<noteq> Pending"
proof (induction cfg env portsToScan i results rule: scan_loop.induct)
  case (1 cfg env portsToScan i results)
  show ?case
  proof (cases "i < length portsToScan")
    case False
    then show ?thesis by (simp add: scan_loop.simps)
  next
    case True
    let ?batch = "take 50 (drop i portsToScan)"
    let ?checks = "map (\<lambda>(j, port). scan_port cfg env j port) (enumerate i ?batch)"
    have settles: "scan_port cfg env j port \<noteq> Pending" for j port
      using "1.prems" scan_port_settles by blast
    have "Pending \<notin> set ?checks"
    proof
      assume "Pending \<in> set ?checks"
      then have "Pending \<in> (\<lambda>(j, port). scan_port cfg env j port) ` set (enumerate i ?batch)"
        by (simp only: set_map)
      then obtain jp where "Pending = (\<lambda>(j, port). scan_port cfg env j port) jp" by blast
      then show False using settles by (cases jp) (metis case_prod_conv)
    qed
    then have np: "promise_all ?checks \<noteq> Pending" by (rule promise_all_settles)
    show ?thesis
    proof (cases "promise_all ?checks")
      case Pending
      with np show ?thesis by simp
    next
      case (Rejected e)
      with True show ?thesis by (subst scan_loop.simps) (simp add: Let_def)
    next
      case (Resolved checks)
      from "1.IH" [OF True refl Resolved "1.prems"] Resolved True show ?thesis
        by (subst scan_loop.simps) (simp add: Let_def)
    qed
  qed
qed

lemma scan_loop_returns:
  "\<forall>n port. socket env n port 100 \<noteq> [] \<Longrightarrow>
   \<forall>port \<in> set portsToScan. port = serverPort cfg \<or> 0 \<le> port \<and> port \<le> 65535 \<Longrightarrow>
   \<exists>found. scan_loop cfg env portsToScan i results = Resolved found"
proof (induction cfg env portsToScan i results rule: scan_loop.induct)
  case (1 cfg env portsToScan i results)
  show ?case
  proof (cases "i < length portsToScan")
    case False
    then show ?thesis by (simp add: scan_loop.simps)
  next
    case True
    let ?batch = "take 50 (drop i portsToScan)"
    let ?checks = "map (\<lambda>(j, port). scan_port cfg env j port) (enumerate i ?batch)"
    have "\<forall>p \<in> set ?checks. \<exists>x. p = Resolved x"
    proof
      fix p assume "p \<in> set ?checks"
      then have "p \<in> (\<lambda>(j, port). scan_port cfg env j port) ` set (enumerate i ?batch)"
        by (simp only: set_map)
      then obtain jp where jp: "jp \<in> set (enumerate i ?batch)"
        and p: "p = (\<lambda>(j, port). scan_port cfg env j port) jp" by blast
      from in_batch [OF jp] "1.prems"(2)
      have "snd jp = serverPort cfg \<or> 0 \<le> snd jp \<and> snd jp \<le> 65535" by blast
      moreover from "1.prems"(1) have "socket env (fst jp) (snd jp) 100 \<noteq> []" by blast
      ultimately have "\<exists>x. scan_port cfg env (fst jp) (snd jp) = Resolved x"
        by (intro scan_port_returns)
      with p show "\<exists>x. p = Resolved x" by (simp add: case_prod_beta)
    qed
    then obtain checks where c: "promise_all ?checks = Resolved checks"
      using promise_all_returns by blast
    from "1.IH" [OF True refl c "1.prems"] c True show ?thesis
      by (subst scan_loop.simps) (simp add: Let_def)
  qed
qed

text \<open>
  Claim C3. For every configuration of port ranges and every outcome of the probes, no
  entry of the sequence that \<^verbatim>\<open>scanPorts\<close> returns has the gateway's own port
  \<^verbatim>\<open>serverPort\<close>, also when that port lies in a range and has a listener. The scan
  settles when every probe's socket emits an event, and it then returns a sequence when
  every port it probes is one that the socket library accepts.
\<close>

theorem scanPorts_excludes_own_port:
  "(\<forall>results. scanPorts cfg env = Resolved results
      \<longrightarrow> serverPort cfg \<notin> svc_port ` set results) \<and>
   ((\<forall>n port. socket env n port 100 \<noteq> []) \<longrightarrow> scanPorts cfg env \<noteq> Pending) \<and>
   ((\<forall>n port. socket env n port 100 \<noteq> []) \<and>
    (\<forall>port \<in> set (getPortsToScan cfg). port = serverPort cfg \<or> 0 \<le> port \<and> port \<le> 65535)
      \<longrightarrow> (\<exists>results. scanPorts cfg env = Resolved results))"
proof (intro conjI allI impI)
  fix results
  assume "scanPorts cfg env = Resolved results"
  then show "serverPort cfg \<notin> svc_port ` set results"
    unfolding scanPorts_def
    using scan_loop_not_own [of cfg env "getPortsToScan cfg" 0 "[]" results] by auto
next
  assume "\<forall>n port. socket env n port 100 \<noteq> []"
  then show "scanPorts cfg env \<noteq> Pending"
    unfolding scanPorts_def by (rule scan_loop_settles)
next
  assume "(\<forall>n port. socket env n port 100 \<noteq> []) \<and>
    (\<forall>port \<in> set (getPortsToScan cfg). port = serverPort cfg \<or> 0 \<le> port \<and> port \<le> 65535)"
  then show "\<exists>results. scanPorts cfg env = Resolved results"
    unfolding scanPorts_def using scan_loop_returns by blast
qed

theorem scanPorts_excludes_own_port_witness:
  "8888 \<in> set (getPortsToScan example_config) \<and>
   promise (checkPort listening 4 8888 100) = Resolved True \<and>
   scanPorts example_config listening
     = Resolved [\<lparr>svc_port = 3000, svc_name = ''node'', svc_pid = Some ''4242''\<rparr>] \<and>
   serverPort example_config
     \<notin> svc_port ` set [\<lparr>svc_port = 3000, svc_name = ''node'', svc_pid = Some ''4242''\<rparr>]"
proof -
  have p: "getPortsToScan example_config = [3000, 3001, 3002, 8887, 8888, 8889]"
    by code_simp
  have o: "promise (checkPort listening 4 8888 100) = Resolved True"
    by code_simp
  have r: "scanPorts example_config listening
             = Resolved [\<lparr>svc_port = 3000, svc_name = ''node'', svc_pid = Some ''4242''\<rparr>]"
    by code_simp
  from scanPorts_excludes_own_port [of example_config listening] r
  have "serverPort example_config
          \<notin> svc_port ` set [\<lparr>svc_port = 3000, svc_name = ''node'', svc_pid = Some ''4242''\<rparr>]"
    by blast
  with p o r show ?thesis by simp
qed

subsection \<open>Reverse proxy router\<close>

lemma api_or_root_not_proxied:
  assumes "startsWith p ''/api/'' \<or> p = ''/''"
  shows "match_proxy p = None" "\<not> startsWith p ''/p/''" "p \<noteq> ''/p''"
proof -
  from assms consider r where "p = ''/api/'' @ r" | "p = ''/''"
    by (auto simp: startsWith_iff)
  then have "\<not> startsWith p ''/proxy/'' \<and> \<not> startsWith p ''/p/'' \<and> p \<noteq> ''/p''"
    by cases (simp_all add: startsWith_def)
  then show "match_proxy p = None" "\<not> startsWith p ''/p/''" "p \<noteq> ''/p''"
    by (simp_all add: match_proxy_def)
qed

lemma proxy_routes_api_or_root:
  assumes "startsWith (pathname req) ''/api/'' \<or> pathname req = ''/''"
  shows "proxy_routes cfg req \<noteq> Forward f"
  using api_or_root_not_proxied [OF assms] assms
  by (auto simp: proxy_routes_def)

text \<open>
  Claim C10. A request whose path starts with \<^verbatim>\<open>/api/\<close> or is exactly \<^verbatim>\<open>/\<close> is
  never forwarded to a target port, whatever cookie it carries: the answer of the handler
  is not a forwarded request.
\<close>

theorem api_and_root_never_forwarded:
  assumes "startsWith (pathname req) ''/api/'' \<or> pathname req = ''/''"
  shows "fst (handler cfg env activeTunnels req) \<noteq> Forward f"
  using proxy_routes_api_or_root [OF assms, of cfg f]
  by (simp add: handler_def Let_def split: option.splits promise_state.splits)

theorem api_and_root_never_forwarded_witness:
  "cookie_port (with_cookie ''/api/status'' [] ''porthole_proxy_port=3000'') = Some 3000 \<and>
   startsWith (pathname (with_cookie ''/api/status'' [] ''porthole_proxy_port=3000'')) ''/api/'' \<and>
   (\<forall>f. fst (handler example_config listening []
               (with_cookie ''/api/status'' [] ''porthole_proxy_port=3000'')) \<noteq> Forward f)"
proof -
  have c: "cookie_port (with_cookie ''/api/status'' [] ''porthole_proxy_port=3000'') = Some 3000"
    by code_simp
  have h: "startsWith (pathname (with_cookie ''/api/status'' [] ''porthole_proxy_port=3000'')) ''/api/''"
    by code_simp
  from h have
    "fst (handler example_config listening []
            (with_cookie ''/api/status'' [] ''porthole_proxy_port=3000'')) \<noteq> Forward f" for f
    by (intro api_and_root_never_forwarded) simp
  with c h show ?thesis by simp
qed


subsection \<open>Tunnel session manager: startup\<close>











subsection \<open>Tunnel session manager: per-port tunnels\<close>


























subsection \<open>Process lifecycle\<close>





text \<open>
  Claim C7, as amended. For every index outside \<open>[0, len(quickLaunch))\<close>,
  \<^verbatim>\<open>launchCommand\<close> returns the failure \<^verbatim>\<open>Invalid command index\<close> and starts no
  process. For every index inside, it calls \<^verbatim>\<open>spawn\<close> (detached) on the configured
  command line split at spaces; when that call returns, the result is the success
  \<^verbatim>\<open>Started:\<close> with the name, at once, and that one process has been started; when
  that call throws, the result is the failure \<^verbatim>\<open>Failed to start\<close> with the name and
  the message, and no process has been started.
\<close>

theorem launchCommand_result:
  "(index < 0 \<or> int (length (quickLaunch cfg)) \<le> index \<longrightarrow>
      launchCommand cfg env index =
        (\<lparr>success = False, url = None, message = Some ''Invalid command index''\<rparr>, [])) \<and>
   (0 \<le> index \<and> index < int (length (quickLaunch cfg)) \<longrightarrow>
      (let cmd = quickLaunch cfg ! nat index;
           parts = split_char CHR '' '' (command cmd)
       in launchCommand cfg env index =
            (case spawn env (hd parts) (tl parts) of
               None \<Rightarrow>
                 (\<lparr>success = True, url = None, message = Some (''Started: '' @ name cmd)\<rparr>,
                  [(hd parts, tl parts)])
             | Some e \<Rightarrow>
                 (\<lparr>success = False, url = None,
                   message = Some (''Failed to start '' @ name cmd @ '': '' @ e)\<rparr>, []))))"
proof (intro conjI impI)
  assume "index < 0 \<or> int (length (quickLaunch cfg)) \<le> index"
  then have "(if 0 \<le> index then nth_opt (quickLaunch cfg) (nat index) else None) = None"
    by (auto simp: nth_opt_def)
  then show "launchCommand cfg env index =
        (\<lparr>success = False, url = None, message = Some ''Invalid command index''\<rparr>, [])"
    by (simp add: launchCommand_def)
next
  assume "0 \<le> index \<and> index < int (length (quickLaunch cfg))"
  then have "(if 0 \<le> index then nth_opt (quickLaunch cfg) (nat index) else None)
      = Some (quickLaunch cfg ! nat index)"
    by (auto simp: nth_opt_def)
  then show "(let cmd = quickLaunch cfg ! nat index;
           parts = split_char CHR '' '' (command cmd)
       in launchCommand cfg env index =
            (case spawn env (hd parts) (tl parts) of
               None \<Rightarrow>
                 (\<lparr>success = True, url = None, message = Some (''Started: '' @ name cmd)\<rparr>,
                  [(hd parts, tl parts)])
             | Some e \<Rightarrow>
                 (\<lparr>success = False, url = None,
                   message = Some (''Failed to start '' @ name cmd @ '': '' @ e)\<rparr>, [])))"
    by (simp add: launchCommand_def Let_def split: option.splits)
qed

theorem launchCommand_result_witness:
  "launchCommand example_config offline (- 1) =
     (\<lparr>success = False, url = None, message = Some ''Invalid command index''\<rparr>, []) \<and>
   launchCommand example_config offline 1 =
     (\<lparr>success = False, url = None, message = Some ''Invalid command index''\<rparr>, []) \<and>
   launchCommand example_config offline 0 =
     (\<lparr>success = True, url = None, message = Some ''Started: My App''\<rparr>,
      [(''npm'', [''run'', ''dev''])])"
proof -
  have a: "launchCommand example_config offline (- 1) =
     (\<lparr>success = False, url = None, message = Some ''Invalid command index''\<rparr>, [])"
    by (rule launchCommand_result [of "- 1" example_config offline, THEN conjunct1, THEN mp]) simp
  have b: "launchCommand example_config offline 1 =
     (\<lparr>success = False, url = None, message = Some ''Invalid command index''\<rparr>, [])"
    by (rule launchCommand_result [of 1 example_config offline, THEN conjunct1, THEN mp])
      (simp add: example_config_def)
  have "0 \<le> (0::int) \<and> 0 < int (length (quickLaunch example_config))"
    by (simp add: example_config_def)
  from launchCommand_result [of 0 example_config offline, THEN conjunct2, THEN mp, OF this]
  have c: "launchCommand example_config offline 0 =
     (\<lparr>success = True, url = None, message = Some ''Started: My App''\<rparr>,
      [(''npm'', [''run'', ''dev''])])"
    by (simp add: example_config_def offline_def Let_def)
  from a b c show ?thesis by (intro conjI)
qed

text \<open>
  The claim as stated fails for an index inside the list whose command line is empty:
  \<^verbatim>\<open>spawn\<close> throws on the empty file name, the \<^verbatim>\<open>catch\<close> block answers with a
  failure, and no process is started.
\<close>

theorem in_bounds_launch_can_fail:
  "quickLaunch blank_command = [\<lparr>name = ''Blank'', command = []\<rparr>] \<and>
   launchCommand blank_command node_spawn 0 =
     (\<lparr>success = False, url = None,
       message = Some ''Failed to start Blank: The argument file cannot be empty''\<rparr>, [])"
  by (simp add: launchCommand_def blank_command_def example_config_def node_spawn_def offline_def
      nth_opt_def Let_def)


subsection \<open>Reverse proxy router: selection and forwarding\<close>

lemma show_int_nat: "show_int (int P) = show_nat P"
  by (simp add: show_int_def)

lemma slash_not_digit: "\<not> is_digit CHR ''/''"
  by (simp add: is_digit_def)

lemma dropWhile_digits:
  "list_all is_digit ds \<Longrightarrow> rest = [] \<or> \<not> is_digit (hd rest) \<Longrightarrow> dropWhile is_digit (ds @ rest) = rest"
  by (induction ds) (auto simp: dropWhile_eq_self_iff)

lemma match_proxy_selection:
  assumes "sub = [] \<or> hd sub = CHR ''/'' \<and> filter is_line_terminator (tl sub) = []"
  shows "match_proxy (''/proxy/'' @ show_nat P @ sub)
           = Some (show_nat P, if sub = [] then None else Some sub)"
proof -
  from assms have nd: "sub = [] \<or> \<not> is_digit (hd sub)" using slash_not_digit by auto
  have s: "startsWith (''/proxy/'' @ show_nat P @ sub) ''/proxy/''"
    unfolding startsWith_iff by blast
  have d: "drop 7 (''/proxy/'' @ show_nat P @ sub) = show_nat P @ sub" by simp
  have t: "takeWhile is_digit (show_nat P @ sub) = show_nat P"
    using show_nat_digits nd by (rule takeWhile_digits)
  have r: "dropWhile is_digit (show_nat P @ sub) = sub"
    using show_nat_digits nd by (rule dropWhile_digits)
  show ?thesis
    unfolding match_proxy_def using assms
    by (simp only: s d t r Let_def if_True show_nat_nonempty if_False) auto
qed

lemma not_api_routes:
  assumes "\<not> startsWith p ''/api/''"
  shows "p \<noteq> ''/api/ports''" "\<not> startsWith p ''/api/kill/''" "\<not> startsWith p ''/api/launch/''"
    "p \<noteq> ''/api/commands''" "\<not> startsWith p ''/api/tunnel/''" "p \<noteq> ''/api/tunnels''"
proof -
  have api: "\<not> startsWith p (''/api/'' @ q)" for q
  proof
    assume "startsWith p (''/api/'' @ q)"
    then obtain r where "p = ''/api/'' @ (q @ r)" by (auto simp: startsWith_iff)
    then have "startsWith p ''/api/''" unfolding startsWith_iff by blast
    with assms show False by simp
  qed
  have eq: "p \<noteq> ''/api/'' @ q" for q
  proof
    assume "p = ''/api/'' @ q"
    then have "startsWith p ''/api/''" unfolding startsWith_iff by blast
    with assms show False by simp
  qed
  from eq [of "''ports''"] show "p \<noteq> ''/api/ports''" by simp
  from api [of "''kill/''"] show "\<not> startsWith p ''/api/kill/''" by simp
  from api [of "''launch/''"] show "\<not> startsWith p ''/api/launch/''" by simp
  from eq [of "''commands''"] show "p \<noteq> ''/api/commands''" by simp
  from api [of "''tunnel/''"] show "\<not> startsWith p ''/api/tunnel/''" by simp
  from eq [of "''tunnels''"] show "p \<noteq> ''/api/tunnels''" by simp
qed

lemma handler_not_api:
  "\<not> startsWith (pathname req) ''/api/'' \<Longrightarrow>
   handler cfg env activeTunnels req = (proxy_routes cfg req, activeTunnels, [])"
  using not_api_routes [of "pathname req"] by (simp add: handler_def)

lemma proxy_not_api: "\<not> startsWith (''/proxy/'' @ r) ''/api/''"
  by (simp add: startsWith_def)

lemma canonical_path:
  assumes "startsWith p ''/p/'' \<or> p = ''/p''"
  shows "\<not> startsWith p ''/api/''" "match_proxy p = None"
proof -
  from assms consider r where "p = ''/p/'' @ r" | "p = ''/p''"
    by (auto simp: startsWith_iff)
  then have "\<not> startsWith p ''/api/'' \<and> \<not> startsWith p ''/proxy/''"
    by cases (simp_all add: startsWith_def)
  then show "\<not> startsWith p ''/api/''" "match_proxy p = None"
    by (simp_all add: match_proxy_def)
qed

lemma cookie_port_carried:
  assumes "map_of (headers req) ''cookie''
             = Some (before @ ''porthole_proxy_port='' @ show_nat P @ others)"
    "\<not> str_includes (before @ ''porthole_proxy_port'') ''porthole_proxy_port=''"
    "others = [] \<or> \<not> is_digit (hd others)"
  shows "cookie_port req = Some (int P)"
proof -
  let ?pat = "''porthole_proxy_port=''"
  have "or_else (map_of (headers req) ''cookie'') [] = before @ ?pat @ show_nat P @ others"
    using assms(1) by (simp add: or_else_def truthy_def)
  moreover have "search_digits ?pat (before @ ?pat @ show_nat P @ others)
      = search_digits ?pat (?pat @ show_nat P @ others)"
    by (rule search_digits_skip) (use assms(2) in simp_all)
  moreover have "search_digits ?pat (?pat @ show_nat P @ others) = Some (show_nat P)"
    using show_nat_nonempty show_nat_digits assms(3) by (rule search_digits_here) simp
  ultimately show ?thesis
    by (simp add: cookie_port_def parseInt_show_nat)
qed

lemma or_else_sub: "or_else (if sub = [] then None else Some sub) d = (if sub = [] then d else sub)"
  by (simp add: or_else_def truthy_def)

lemma or_else_Some: "or_else (Some s) d = (if s = [] then d else s)"
  by (simp add: or_else_def truthy_def)

text \<open>
  Claim C5, as amended. For every port \<open>P\<close> from 1 to 65535: a request to
  \<^verbatim>\<open>/proxy/P\<close> followed by nothing or by a subpath is answered with a 302 whose
  \<^verbatim>\<open>Location\<close> is \<^verbatim>\<open>/p\<close>, the same subpath (a slash when there is none) and the same
  query, and whose \<^verbatim>\<open>Set-Cookie\<close> records \<open>P\<close> in \<^verbatim>\<open>porthole_proxy_port\<close>. Every
  request whose cookie header holds that pair (alone or among other pairs, with no earlier
  occurrence of the text \<^verbatim>\<open>porthole_proxy_port=\<close>) is then passed on to \<^verbatim>\<open>127.0.0.1:P\<close> with its method and headers (the host overridden):
  a request to \<^verbatim>\<open>/p\<close> or below at the path after \<^verbatim>\<open>/p\<close> (a slash when empty) with
  the query, and a request to any other path that is not under \<^verbatim>\<open>/api/\<close>, is not the
  root and is not itself a selection request, at its own path and query. Port 0 is
  excluded: the handler reads a cookie that records 0 as no selection.
\<close>

theorem selection_round_trip:
  fixes P :: nat
  assumes "1 \<le> P" "P \<le> 65535"
  shows
   "(\<forall>sel sub. pathname sel = ''/proxy/'' @ show_nat P @ sub \<and>
        (sub = [] \<or> hd sub = CHR ''/'' \<and> filter is_line_terminator (tl sub) = []) \<longrightarrow>
        fst (handler cfg env activeTunnels sel) =
          Respond 302
            [(''Set-Cookie'', ''porthole_proxy_port='' @ show_nat P @ ''; Path=/; SameSite=Lax''),
             (''Location'', ''/p'' @ (if sub = [] then ''/'' else sub) @ search sel)]
            NoBody) \<and>
    (\<forall>req before others.
        map_of (headers req) ''cookie''
          = Some (before @ ''porthole_proxy_port='' @ show_nat P @ others) \<and>
        \<not> str_includes (before @ ''porthole_proxy_port'') ''porthole_proxy_port='' \<and>
        (others = [] \<or> \<not> is_digit (hd others)) \<longrightarrow>
        (startsWith (pathname req) ''/p/'' \<or> pathname req = ''/p'' \<longrightarrow>
           fst (handler cfg env activeTunnels req) =
             Forward \<lparr>hostname = ''127.0.0.1'', to_port = int P,
                      path = (if drop 2 (pathname req) = [] then ''/'' else drop 2 (pathname req))
                             @ search req,
                      with_method = req_method req,
                      with_headers = AList.update ''host'' (''localhost:'' @ show_nat P) (headers req)\<rparr>) \<and>
        (\<not> startsWith (pathname req) ''/p/'' \<and> pathname req \<noteq> ''/p'' \<and>
         \<not> startsWith (pathname req) ''/api/'' \<and> pathname req \<noteq> ''/'' \<and>
         match_proxy (pathname req) = None \<longrightarrow>
           fst (handler cfg env activeTunnels req) =
             Forward \<lparr>hostname = ''127.0.0.1'', to_port = int P,
                      path = pathname req @ search req,
                      with_method = req_method req,
                      with_headers = AList.update ''host'' (''localhost:'' @ show_nat P) (headers req)\<rparr>))"
proof (intro conjI allI impI)
  fix sel :: request and sub
  assume a: "pathname sel = ''/proxy/'' @ show_nat P @ sub \<and>
        (sub = [] \<or> hd sub = CHR ''/'' \<and> filter is_line_terminator (tl sub) = [])"
  then have p1: "pathname sel = ''/proxy/'' @ show_nat P @ sub"
    and s1: "sub = [] \<or> hd sub = CHR ''/'' \<and> filter is_line_terminator (tl sub) = []"
    by blast+
  have m: "match_proxy (pathname sel) = Some (show_nat P, if sub = [] then None else Some sub)"
    unfolding p1 using s1 by (rule match_proxy_selection)
  have "\<not> startsWith (pathname sel) ''/api/''" unfolding p1 by (rule proxy_not_api)
  then have "fst (handler cfg env activeTunnels sel) = proxy_routes cfg sel"
    by (simp add: handler_not_api)
  also have "\<dots> = Respond 302
            [(''Set-Cookie'', ''porthole_proxy_port='' @ show_nat P @ ''; Path=/; SameSite=Lax''),
             (''Location'', ''/p'' @ (if sub = [] then ''/'' else sub) @ search sel)]
            NoBody"
    unfolding proxy_routes_def m
    by (simp add: Let_def parseInt_show_nat show_int_nat or_else_sub)
  finally show "fst (handler cfg env activeTunnels sel) =
          Respond 302
            [(''Set-Cookie'', ''porthole_proxy_port='' @ show_nat P @ ''; Path=/; SameSite=Lax''),
             (''Location'', ''/p'' @ (if sub = [] then ''/'' else sub) @ search sel)]
            NoBody" .
next
  fix req :: request and before others
  assume c: "map_of (headers req) ''cookie''
          = Some (before @ ''porthole_proxy_port='' @ show_nat P @ others) \<and>
        \<not> str_includes (before @ ''porthole_proxy_port'') ''porthole_proxy_port='' \<and>
        (others = [] \<or> \<not> is_digit (hd others))"
    and p: "startsWith (pathname req) ''/p/'' \<or> pathname req = ''/p''"
  from c have "cookie_port req = Some (int P)"
    by (intro cookie_port_carried [of req before P others]) simp_all
  then have cp: "truthy_port (cookie_port req) = Some (int P)"
    using assms(1) by (simp add: truthy_port_def)
  from canonical_path [OF p] have "fst (handler cfg env activeTunnels req) = proxy_routes cfg req"
    by (simp add: handler_not_api)
  also have "\<dots> = forward_to req (int P)
       ((if drop 2 (pathname req) = [] then ''/'' else drop 2 (pathname req)) @ search req)"
    unfolding proxy_routes_def using canonical_path(2) [OF p] p cp
    by (simp add: Let_def or_else_Some)
  finally show "fst (handler cfg env activeTunnels req) =
             Forward \<lparr>hostname = ''127.0.0.1'', to_port = int P,
                      path = (if drop 2 (pathname req) = [] then ''/'' else drop 2 (pathname req))
                             @ search req,
                      with_method = req_method req,
                      with_headers = AList.update ''host'' (''localhost:'' @ show_nat P) (headers req)\<rparr>"
    by (simp add: forward_to_def show_int_nat)
next
  fix req :: request and before others
  assume c: "map_of (headers req) ''cookie''
          = Some (before @ ''porthole_proxy_port='' @ show_nat P @ others) \<and>
        \<not> str_includes (before @ ''porthole_proxy_port'') ''porthole_proxy_port='' \<and>
        (others = [] \<or> \<not> is_digit (hd others))"
    and p: "\<not> startsWith (pathname req) ''/p/'' \<and> pathname req \<noteq> ''/p'' \<and>
         \<not> startsWith (pathname req) ''/api/'' \<and> pathname req \<noteq> ''/'' \<and>
         match_proxy (pathname req) = None"
  from c have "cookie_port req = Some (int P)"
    by (intro cookie_port_carried [of req before P others]) simp_all
  then have cp: "truthy_port (cookie_port req) = Some (int P)"
    using assms(1) by (simp add: truthy_port_def)
  from p have "fst (handler cfg env activeTunnels req) = proxy_routes cfg req"
    by (simp add: handler_not_api)
  also have "\<dots> = forward_to req (int P) (pathname req @ search req)"
    unfolding proxy_routes_def using p cp by simp
  finally show "fst (handler cfg env activeTunnels req) =
             Forward \<lparr>hostname = ''127.0.0.1'', to_port = int P,
                      path = pathname req @ search req,
                      with_method = req_method req,
                      with_headers = AList.update ''host'' (''localhost:'' @ show_nat P) (headers req)\<rparr>"
    by (simp add: forward_to_def show_int_nat)
qed

theorem selection_round_trip_witness:
  "fst (handler example_config offline [] (with_cookie ''/proxy/3000/app/index.html'' ''?v=1'' [])) =
     Respond 302
       [(''Set-Cookie'', ''porthole_proxy_port=3000; Path=/; SameSite=Lax''),
        (''Location'', ''/p/app/index.html?v=1'')]
       NoBody \<and>
   fst (handler example_config offline []
          (with_cookie ''/p/app/index.html'' ''?v=1'' ''porthole_proxy_port=3000'')) =
     Forward \<lparr>hostname = ''127.0.0.1'', to_port = 3000, path = ''/app/index.html?v=1'',
              with_method = ''GET'',
              with_headers = [(''host'', ''localhost:3000''),
                              (''cookie'', ''porthole_proxy_port=3000'')]\<rparr> \<and>
   fst (handler example_config offline []
          (with_cookie ''/favicon.ico'' [] ''sid=7; porthole_proxy_port=3000; theme=dark'')) =
     Forward \<lparr>hostname = ''127.0.0.1'', to_port = 3000, path = ''/favicon.ico'',
              with_method = ''GET'',
              with_headers = [(''host'', ''localhost:3000''),
                              (''cookie'', ''sid=7; porthole_proxy_port=3000; theme=dark'')]\<rparr>"
proof -
  have n: "show_nat 3000 = ''3000''" by (simp add: show_nat.simps)
  have P: "1 \<le> (3000::nat)" "(3000::nat) \<le> 65535" by simp_all
  note rt = selection_round_trip [OF P, of example_config offline "[]"]
  have a: "fst (handler example_config offline []
                  (with_cookie ''/proxy/3000/app/index.html'' ''?v=1'' [])) =
     Respond 302
       [(''Set-Cookie'', ''porthole_proxy_port=3000; Path=/; SameSite=Lax''),
        (''Location'', ''/p/app/index.html?v=1'')]
       NoBody"
    using rt [THEN conjunct1, rule_format,
        of "with_cookie ''/proxy/3000/app/index.html'' ''?v=1'' []" "''/app/index.html''"]
    by (simp add: n with_cookie_def is_line_terminator_def)
  have b: "fst (handler example_config offline []
          (with_cookie ''/p/app/index.html'' ''?v=1'' ''porthole_proxy_port=3000'')) =
     Forward \<lparr>hostname = ''127.0.0.1'', to_port = 3000, path = ''/app/index.html?v=1'',
              with_method = ''GET'',
              with_headers = [(''host'', ''localhost:3000''),
                              (''cookie'', ''porthole_proxy_port=3000'')]\<rparr>"
    using rt [THEN conjunct2, rule_format, THEN conjunct1, rule_format,
        of "with_cookie ''/p/app/index.html'' ''?v=1'' ''porthole_proxy_port=3000''" "[]" "[]"]
    by (simp add: n with_cookie_def startsWith_def)
  have c: "fst (handler example_config offline []
          (with_cookie ''/favicon.ico'' [] ''sid=7; porthole_proxy_port=3000; theme=dark'')) =
     Forward \<lparr>hostname = ''127.0.0.1'', to_port = 3000, path = ''/favicon.ico'',
              with_method = ''GET'',
              with_headers = [(''host'', ''localhost:3000''),
                              (''cookie'', ''sid=7; porthole_proxy_port=3000; theme=dark'')]\<rparr>"
    using rt [THEN conjunct2, rule_format, THEN conjunct2, rule_format,
        of "with_cookie ''/favicon.ico'' [] ''sid=7; porthole_proxy_port=3000; theme=dark''"
           "''sid=7; ''" "''; theme=dark''"]
    by (simp add: n with_cookie_def startsWith_def match_proxy_def is_digit_def)
  from a b c show ?thesis by (intro conjI)
qed

text \<open>
  The claim as stated fails for port 0: the selection request is answered with the
  redirect and a cookie that records 0, and the requests that carry this cookie are not
  passed on (400 on the canonical path, 404 on a bare path).
\<close>

theorem port_zero_not_forwarded:
  "fst (handler example_config offline [] (with_cookie ''/proxy/0/index.html'' [] [])) =
     Respond 302 [(''Set-Cookie'', ''porthole_proxy_port=0; Path=/; SameSite=Lax''),
                  (''Location'', ''/p/index.html'')] NoBody \<and>
   fst (handler example_config offline [] (with_cookie ''/p/index.html'' [] ''porthole_proxy_port=0''))
     = Respond 400 html NoProxyTargetHtml \<and>
   fst (handler example_config offline [] (with_cookie ''/favicon.ico'' [] ''porthole_proxy_port=0''))
     = Respond 404 json (ErrorJson ''Not found'')"
  by (simp add: handler_def proxy_routes_def match_proxy_def cookie_port_def truthy_port_def
      with_cookie_def startsWith_def is_digit_def is_line_terminator_def or_else_def truthy_def
      parseInt_def digit_val_def show_int_def show_nat.simps Let_def)


end
